theory Spec2Isabelle
  imports Complex_Main "HOL-Library.Word" "HOL-Library.Log_Nat"
begin

section \<open>JavaScript values used by the task API\<close>

text \<open>
  A JavaScript string is a sequence of 16-bit code units. \<open>ascii\<close> writes an ASCII
  literal of the source as such a sequence.
\<close>

type_synonym js_string = "16 word list"

definition ascii :: "string \<Rightarrow> js_string" where
  "ascii cs = map of_char cs"

text \<open>
  A JavaScript number: the three non-finite values and the finite values, carried by the
  rational they denote (\<open>-0\<close> and \<open>+0\<close> are not told apart: \<open>===\<close> does not
  tell them apart either).
\<close>

datatype number = NaN | PosInfinity | NegInfinity | Fin rat

text \<open>
  The values a handler sees: \<open>undefined\<close> and the values \<open>express.json()\<close> builds
  from a JSON text. An object is its list of properties in the order of the JSON text.
\<close>

datatype jsval =
    JUndefined
  | JNull
  | JBoolean bool
  | JNumber number
  | JString js_string
  | JArray "jsval list"
  | JObject "(js_string \<times> jsval) list"

datatype js_error = TypeError

text \<open>\<open>!title\<close> is the negation of ToBoolean.\<close>

fun ToBoolean :: "jsval \<Rightarrow> bool" where
  "ToBoolean JUndefined = False"
| "ToBoolean JNull = False"
| "ToBoolean (JBoolean b) = b"
| "ToBoolean (JNumber n) = (n \<noteq> NaN \<and> n \<noteq> Fin 0)"
| "ToBoolean (JString s) = (s \<noteq> [])"
| "ToBoolean (JArray xs) = True"
| "ToBoolean (JObject ps) = True"

text \<open>
  \<open>const { title } = req.body\<close>: destructuring \<open>undefined\<close> or \<open>null\<close> throws a
  TypeError; an object gives the property (the last one of that name in the JSON text) or
  \<open>undefined\<close>; an array or a primitive has no property of that name.
\<close>

fun destructure :: "jsval \<Rightarrow> js_string \<Rightarrow> js_error + jsval" where
  "destructure JUndefined k = Inl TypeError"
| "destructure JNull k = Inl TypeError"
| "destructure (JObject ps) k =
     (case map_of (rev ps) k of None \<Rightarrow> Inr JUndefined | Some v \<Rightarrow> Inr v)"
| "destructure v k = Inr JUndefined"

subsection \<open>Rounding a rational to the nearest binary64 value\<close>

definition pow2 :: "int \<Rightarrow> rat" where
  "pow2 e = (if 0 \<le> e then 2 ^ nat e else 1 / 2 ^ nat (- e))"

text \<open>For \<open>a > 0\<close>, the exponent \<open>e\<close> with \<open>2^e \<le> a < 2^(e+1)\<close>.\<close>

definition floor_log2 :: "rat \<Rightarrow> int" where
  "floor_log2 a =
     (let e0 = int (floorlog 2 (nat (fst (quotient_of a)))) -
               int (floorlog 2 (nat (snd (quotient_of a))))
      in if pow2 e0 \<le> a then e0 else e0 - 1)"

definition round_half_even :: "rat \<Rightarrow> int" where
  "round_half_even q =
     (let f = \<lfloor>q\<rfloor>; d = q - of_int f
      in if d < 1 / 2 then f
         else if 1 / 2 < d then f + 1
         else if even f then f else f + 1)"

definition round_binary64 :: "rat \<Rightarrow> number" where
  "round_binary64 q =
     (if q = 0 then Fin 0
      else let a = \<bar>q\<bar>;
               e = max (floor_log2 a) (- 1022);
               u = pow2 (e - 52);
               r = of_int (round_half_even (a / u)) * u
           in if pow2 1024 \<le> r then (if q < 0 then NegInfinity else PosInfinity)
              else Fin (if q < 0 then - r else r))"

subsection \<open>\<open>Number(string)\<close>: the StringToNumber conversion\<close>

definition is_StrWhiteSpaceChar :: "16 word \<Rightarrow> bool" where
  "is_StrWhiteSpaceChar c \<longleftrightarrow>
     c = 0x09 \<or> c = 0x0A \<or> c = 0x0B \<or> c = 0x0C \<or> c = 0x0D \<or> c = 0x20 \<or> c = 0xA0 \<or>
     c = 0x1680 \<or> (0x2000 \<le> c \<and> c \<le> 0x200A) \<or> c = 0x2028 \<or> c = 0x2029 \<or>
     c = 0x202F \<or> c = 0x205F \<or> c = 0x3000 \<or> c = 0xFEFF"

definition trim :: "js_string \<Rightarrow> js_string" where
  "trim s = rev (dropWhile is_StrWhiteSpaceChar (rev (dropWhile is_StrWhiteSpaceChar s)))"

text \<open>The value of a code unit as a digit: \<open>0-9\<close>, \<open>a-f\<close>, \<open>A-F\<close>.\<close>

definition digit_value :: "16 word \<Rightarrow> nat option" where
  "digit_value c =
     (if 0x30 \<le> c \<and> c \<le> 0x39 then Some (unat c - 48)
      else if 0x61 \<le> c \<and> c \<le> 0x66 then Some (unat c - 87)
      else if 0x41 \<le> c \<and> c \<le> 0x46 then Some (unat c - 55)
      else None)"

definition is_digit :: "nat \<Rightarrow> 16 word \<Rightarrow> bool" where
  "is_digit radix c = (case digit_value c of None \<Rightarrow> False | Some d \<Rightarrow> d < radix)"

definition MV :: "nat \<Rightarrow> js_string \<Rightarrow> int" where
  "MV radix ds =
     foldl (\<lambda>a c. a * int radix + (case digit_value c of None \<Rightarrow> 0 | Some d \<Rightarrow> int d)) 0 ds"

definition pow10 :: "int \<Rightarrow> rat" where
  "pow10 e = (if 0 \<le> e then 10 ^ nat e else 1 / 10 ^ nat (- e))"

text \<open>ExponentPart (optional): \<open>e\<close> or \<open>E\<close>, an optional sign, decimal digits.\<close>

definition ExponentPart :: "js_string \<Rightarrow> int option" where
  "ExponentPart s =
     (case s of
        [] \<Rightarrow> Some 0
      | c # r \<Rightarrow>
          if c = 0x65 \<or> c = 0x45 then
            (let neg = (case r of [] \<Rightarrow> False | x # _ \<Rightarrow> x = 0x2D);
                 ds = (case r of [] \<Rightarrow> [] | x # r' \<Rightarrow> if x = 0x2B \<or> x = 0x2D then r' else r)
             in if ds \<noteq> [] \<and> list_all (is_digit 10) ds
                then Some (if neg then - MV 10 ds else MV 10 ds)
                else None)
          else None)"

text \<open>
  StrUnsignedDecimalLiteral other than \<open>Infinity\<close>: digits, an optional point and
  digits (one of the two digit runs is not empty), an optional exponent.
\<close>

definition StrUnsignedDecimalLiteral :: "js_string \<Rightarrow> rat option" where
  "StrUnsignedDecimalLiteral u =
     (let ip = takeWhile (is_digit 10) u;
          r1 = dropWhile (is_digit 10) u;
          dot = (case r1 of [] \<Rightarrow> False | c # _ \<Rightarrow> c = 0x2E);
          fp = (if dot then takeWhile (is_digit 10) (tl r1) else []);
          r2 = (if dot then dropWhile (is_digit 10) (tl r1) else r1)
      in if ip = [] \<and> fp = [] then None
         else case ExponentPart r2 of
                None \<Rightarrow> None
              | Some e \<Rightarrow>
                  Some ((of_int (MV 10 ip) + of_int (MV 10 fp) / 10 ^ length fp) * pow10 e))"

definition StrDecimalLiteral :: "js_string \<Rightarrow> number option" where
  "StrDecimalLiteral t =
     (let neg = (case t of [] \<Rightarrow> False | c # _ \<Rightarrow> c = 0x2D);
          u = (case t of [] \<Rightarrow> [] | c # r \<Rightarrow> if c = 0x2B \<or> c = 0x2D then r else t)
      in if u = ascii ''Infinity'' then Some (if neg then NegInfinity else PosInfinity)
         else case StrUnsignedDecimalLiteral u of
                None \<Rightarrow> None
              | Some v \<Rightarrow> Some (round_binary64 (if neg then - v else v)))"

text \<open>NonDecimalIntegerLiteral: \<open>0x\<close>, \<open>0o\<close> or \<open>0b\<close> (either case) and digits.\<close>

definition NonDecimalIntegerLiteral :: "js_string \<Rightarrow> number option" where
  "NonDecimalIntegerLiteral t =
     (case t of
        z # x # ds \<Rightarrow>
          (let radix = (if x = 0x78 \<or> x = 0x58 then 16
                        else if x = 0x6F \<or> x = 0x4F then 8
                        else if x = 0x62 \<or> x = 0x42 then 2 else 0)
           in if z = 0x30 \<and> radix \<noteq> 0 \<and> ds \<noteq> [] \<and> list_all (is_digit radix) ds
              then Some (round_binary64 (of_int (MV radix ds)))
              else None)
      | _ \<Rightarrow> None)"

text \<open>
  \<open>Number(s)\<close> for a string \<open>s\<close>: white space around the literal is dropped, the empty
  text is \<open>0\<close>, and a text that is no numeric literal is \<open>NaN\<close>.
\<close>

definition Number :: "js_string \<Rightarrow> number" where
  "Number s =
     (let t = trim s
      in if t = [] then Fin 0
         else case NonDecimalIntegerLiteral t of
                Some n \<Rightarrow> n
              | None \<Rightarrow> (case StrDecimalLiteral t of Some n \<Rightarrow> n | None \<Rightarrow> NaN))"

text \<open>\<open>a === b\<close> on numbers: \<open>NaN\<close> equals nothing, itself included.\<close>

definition strict_equals :: "number \<Rightarrow> number \<Rightarrow> bool" where
  "strict_equals a b \<longleftrightarrow> a \<noteq> NaN \<and> b \<noteq> NaN \<and> a = b"

text \<open>
  \<open>${PORT}\<close> in a template literal: the decimal digits of a non-negative integer.
\<close>

fun ToString :: "nat \<Rightarrow> js_string" where
  "ToString n =
     (if n < 10 then [of_nat (48 + n)] else ToString (n div 10) @ [of_nat (48 + n mod 10)])"

declare ToString.simps [simp del]

section \<open>The task registry and its route handlers\<close>

text \<open>
  A task as \<open>newTask\<close> builds it. The id is the value of \<open>Date.now()\<close>, an integral
  number of milliseconds; the title is whatever truthy value the request carried.
\<close>

record task =
  id' :: int
  title :: jsval
  completed :: bool

text \<open>What a handler passes to \<open>res.send\<close> or \<open>res.json\<close>, and the response.\<close>

datatype payload =
    Text js_string
  | TaskArray "task list"
  | TaskObject task
  | ErrorObject js_string
  | MessageObject js_string

record response =
  status :: nat
  body :: payload

datatype outcome = Sent response | Threw js_error

text \<open>The requests the four routes (and the root route) accept.\<close>

datatype request =
    GET_root
  | GET_tasks
  | POST_tasks jsval
  | PUT_tasks_id js_string
  | DELETE_tasks_id js_string

text \<open>
  \<open>tasks.find(p)\<close> gives the first element that satisfies \<open>p\<close>, by reference: the
  handler then writes to that element of the array. \<open>findIndex\<close> is its position.
\<close>

fun findIndex :: "('a \<Rightarrow> bool) \<Rightarrow> 'a list \<Rightarrow> nat option" where
  "findIndex p [] = None"
| "findIndex p (x # xs) =
     (if p x then Some 0 else (case findIndex p xs of None \<Rightarrow> None | Some i \<Rightarrow> Some (Suc i)))"

subsection \<open>src/index.js\<close>

definition index_PORT :: nat where
  "index_PORT = 5000"

definition index_get_root :: "task list \<Rightarrow> outcome \<times> task list" where
  "index_get_root tasks =
     (Sent \<lparr>status = 200, body = Text (ascii ''API is running '' @ [0xD83D, 0xDE80])\<rparr>, tasks)"

definition index_get_tasks :: "task list \<Rightarrow> outcome \<times> task list" where
  "index_get_tasks tasks = (Sent \<lparr>status = 200, body = TaskArray tasks\<rparr>, tasks)"

definition index_post_tasks :: "int \<Rightarrow> jsval \<Rightarrow> task list \<Rightarrow> outcome \<times> task list" where
  "index_post_tasks now req_body tasks =
     (case destructure req_body (ascii ''title'') of
        Inl e \<Rightarrow> (Threw e, tasks)
      | Inr title' \<Rightarrow>
          if \<not> ToBoolean title' then
            (Sent \<lparr>status = 400, body = ErrorObject (ascii ''Title is required'')\<rparr>, tasks)
          else
            (let newTask = \<lparr>id' = now, title = title', completed = False\<rparr>
             in (Sent \<lparr>status = 201, body = TaskObject newTask\<rparr>, tasks @ [newTask])))"

definition index_put_tasks_id :: "js_string \<Rightarrow> task list \<Rightarrow> outcome \<times> task list" where
  "index_put_tasks_id params_id tasks =
     (let id = Number params_id
      in case findIndex (\<lambda>task. strict_equals (Fin (of_int (id' task))) id) tasks of
           None \<Rightarrow>
             (Sent \<lparr>status = 404, body = ErrorObject (ascii ''Task not found'')\<rparr>, tasks)
         | Some i \<Rightarrow>
             (let task = (tasks ! i)\<lparr>completed := \<not> completed (tasks ! i)\<rparr>
              in (Sent \<lparr>status = 200, body = TaskObject task\<rparr>, tasks[i := task])))"

definition index_delete_tasks_id :: "js_string \<Rightarrow> task list \<Rightarrow> outcome \<times> task list" where
  "index_delete_tasks_id params_id tasks =
     (let id = Number params_id
      in (Sent \<lparr>status = 200, body = MessageObject (ascii ''Task deleted successfully'')\<rparr>,
          filter (\<lambda>task. \<not> strict_equals (Fin (of_int (id' task))) id) tasks))"

text \<open>
  One request handled to completion: \<open>now\<close> is what \<open>Date.now()\<close> returns while it is
  handled, \<open>tasks\<close> the array before, and the result the response and the array after.
\<close>

fun index_app :: "int \<Rightarrow> request \<Rightarrow> task list \<Rightarrow> outcome \<times> task list" where
  "index_app now GET_root tasks = index_get_root tasks"
| "index_app now GET_tasks tasks = index_get_tasks tasks"
| "index_app now (POST_tasks req_body) tasks = index_post_tasks now req_body tasks"
| "index_app now (PUT_tasks_id params_id) tasks = index_put_tasks_id params_id tasks"
| "index_app now (DELETE_tasks_id params_id) tasks = index_delete_tasks_id params_id tasks"

text \<open>
  A run: the requests in the order they are handled, each with its clock reading, from
  the array \<open>tasks\<close>.
\<close>

fun index_run :: "(int \<times> request) list \<Rightarrow> task list \<Rightarrow> task list" where
  "index_run [] tasks = tasks"
| "index_run ((now, req) # rest) tasks = index_run rest (snd (index_app now req tasks))"

text \<open>
  \<open>app.listen(PORT, ...)\<close>: the lines the callback writes with \<open>console.log\<close>
  once the server listens.
\<close>

definition index_listen_callback :: "js_string list" where
  "index_listen_callback =
     [[0xD83D, 0xDE80] @ ascii '' Server running at http://localhost:'' @ ToString index_PORT]"

subsection \<open>src/unnamed/part_000\<close>

definition part_000_PORT :: nat where
  "part_000_PORT = 3000"

definition part_000_get_root :: "task list \<Rightarrow> outcome \<times> task list" where
  "part_000_get_root tasks =
     (Sent \<lparr>status = 200, body = Text (ascii ''API is running '' @ [0xD83D, 0xDE80])\<rparr>, tasks)"

definition part_000_get_tasks :: "task list \<Rightarrow> outcome \<times> task list" where
  "part_000_get_tasks tasks = (Sent \<lparr>status = 200, body = TaskArray tasks\<rparr>, tasks)"

definition part_000_post_tasks :: "int \<Rightarrow> jsval \<Rightarrow> task list \<Rightarrow> outcome \<times> task list" where
  "part_000_post_tasks now req_body tasks =
     (case destructure req_body (ascii ''title'') of
        Inl e \<Rightarrow> (Threw e, tasks)
      | Inr title' \<Rightarrow>
          if \<not> ToBoolean title' then
            (Sent \<lparr>status = 400, body = ErrorObject (ascii ''Title is required'')\<rparr>, tasks)
          else
            (let newTask = \<lparr>id' = now, title = title', completed = False\<rparr>
             in (Sent \<lparr>status = 201, body = TaskObject newTask\<rparr>, tasks @ [newTask])))"

definition part_000_put_tasks_id :: "js_string \<Rightarrow> task list \<Rightarrow> outcome \<times> task list" where
  "part_000_put_tasks_id params_id tasks =
     (let id = Number params_id
      in case findIndex (\<lambda>t. strict_equals (Fin (of_int (id' t))) id) tasks of
           None \<Rightarrow>
             (Sent \<lparr>status = 404, body = ErrorObject (ascii ''Task not found'')\<rparr>, tasks)
         | Some i \<Rightarrow>
             (let task = (tasks ! i)\<lparr>completed := \<not> completed (tasks ! i)\<rparr>
              in (Sent \<lparr>status = 200, body = TaskObject task\<rparr>, tasks[i := task])))"

definition part_000_delete_tasks_id :: "js_string \<Rightarrow> task list \<Rightarrow> outcome \<times> task list" where
  "part_000_delete_tasks_id params_id tasks =
     (let id = Number params_id
      in (Sent \<lparr>status = 200, body = MessageObject (ascii ''Task deleted successfully'')\<rparr>,
          filter (\<lambda>t. \<not> strict_equals (Fin (of_int (id' t))) id) tasks))"

fun part_000_app :: "int \<Rightarrow> request \<Rightarrow> task list \<Rightarrow> outcome \<times> task list" where
  "part_000_app now GET_root tasks = part_000_get_root tasks"
| "part_000_app now GET_tasks tasks = part_000_get_tasks tasks"
| "part_000_app now (POST_tasks req_body) tasks = part_000_post_tasks now req_body tasks"
| "part_000_app now (PUT_tasks_id params_id) tasks = part_000_put_tasks_id params_id tasks"
| "part_000_app now (DELETE_tasks_id params_id) tasks = part_000_delete_tasks_id params_id tasks"

definition part_000_listen_callback :: "js_string list" where
  "part_000_listen_callback =
     [ascii ''Server running at http://localhost:'' @ ToString part_000_PORT,
      ascii ''Server running at http://localhost:'' @ ToString part_000_PORT]"

subsection \<open>Notions the properties are stated with\<close>

text \<open>\<open>task.id === id\<close>, the test of both \<open>find\<close> and (negated) \<open>filter\<close>.\<close>

definition has_id :: "number \<Rightarrow> task \<Rightarrow> bool" where
  "has_id n task \<longleftrightarrow> strict_equals (Fin (of_int (id' task))) n"

text \<open>\<open>task.completed = !task.completed\<close>.\<close>

definition toggled :: "task \<Rightarrow> task" where
  "toggled task = task\<lparr>completed := \<not> completed task\<rparr>"

text \<open>A number that is an integer.\<close>

fun is_integer :: "number \<Rightarrow> bool" where
  "is_integer (Fin q) = (of_int \<lfloor>q\<rfloor> = q)"
| "is_integer _ = False"

text \<open>
  The numeric strings of the language, as its grammar gives them, independently of the
  conversion above: StringNumericLiteral is white space, or a StrDecimalLiteral or a
  NonDecimalIntegerLiteral with optional white space on both sides.
\<close>

definition is_DecimalDigits :: "js_string \<Rightarrow> bool" where
  "is_DecimalDigits ds \<longleftrightarrow> ds \<noteq> [] \<and> list_all (is_digit 10) ds"

definition is_SignedInteger :: "js_string \<Rightarrow> bool" where
  "is_SignedInteger s \<longleftrightarrow>
     is_DecimalDigits s \<or> (\<exists>ds. is_DecimalDigits ds \<and> (s = 0x2B # ds \<or> s = 0x2D # ds))"

definition is_ExponentPart :: "js_string \<Rightarrow> bool" where
  "is_ExponentPart x \<longleftrightarrow>
     (\<exists>c si. (c = 0x65 \<or> c = 0x45) \<and> is_SignedInteger si \<and> x = c # si)"

definition is_StrUnsignedDecimalLiteral :: "js_string \<Rightarrow> bool" where
  "is_StrUnsignedDecimalLiteral u \<longleftrightarrow>
     u = ascii ''Infinity'' \<or>
     (\<exists>ip fp ex. is_DecimalDigits ip \<and> (fp = [] \<or> is_DecimalDigits fp) \<and>
        (ex = [] \<or> is_ExponentPart ex) \<and> u = ip @ 0x2E # fp @ ex) \<or>
     (\<exists>fp ex. is_DecimalDigits fp \<and> (ex = [] \<or> is_ExponentPart ex) \<and> u = 0x2E # fp @ ex) \<or>
     (\<exists>ip ex. is_DecimalDigits ip \<and> (ex = [] \<or> is_ExponentPart ex) \<and> u = ip @ ex)"

definition is_StrDecimalLiteral :: "js_string \<Rightarrow> bool" where
  "is_StrDecimalLiteral t \<longleftrightarrow>
     is_StrUnsignedDecimalLiteral t \<or>
     (\<exists>u. is_StrUnsignedDecimalLiteral u \<and> (t = 0x2B # u \<or> t = 0x2D # u))"

definition is_NonDecimalIntegerLiteral :: "js_string \<Rightarrow> bool" where
  "is_NonDecimalIntegerLiteral t \<longleftrightarrow>
     (\<exists>x ds. t = 0x30 # x # ds \<and> ds \<noteq> [] \<and>
        ((x = 0x78 \<or> x = 0x58) \<and> list_all (is_digit 16) ds \<or>
         (x = 0x6F \<or> x = 0x4F) \<and> list_all (is_digit 8) ds \<or>
         (x = 0x62 \<or> x = 0x42) \<and> list_all (is_digit 2) ds))"

definition is_StringNumericLiteral :: "js_string \<Rightarrow> bool" where
  "is_StringNumericLiteral s \<longleftrightarrow>
     (\<exists>ws1 t ws2. list_all is_StrWhiteSpaceChar ws1 \<and> list_all is_StrWhiteSpaceChar ws2 \<and>
        (t = [] \<or> is_StrDecimalLiteral t \<or> is_NonDecimalIntegerLiteral t) \<and>
        s = ws1 @ t @ ws2)"

text \<open>The responses of a run, in order, and the tasks its 201 responses carried.\<close>

fun index_responses :: "(int \<times> request) list \<Rightarrow> task list \<Rightarrow> outcome list" where
  "index_responses [] tasks = []"
| "index_responses ((now, req) # rest) tasks =
     fst (index_app now req tasks) # index_responses rest (snd (index_app now req tasks))"

fun created_tasks :: "outcome list \<Rightarrow> task list" where
  "created_tasks [] = []"
| "created_tasks (Threw e # rest) = created_tasks rest"
| "created_tasks (Sent r # rest) =
     (case body r of
        TaskObject t \<Rightarrow> if status r = 201 then t # created_tasks rest else created_tasks rest
      | _ \<Rightarrow> created_tasks rest)"

fun is_delete :: "request \<Rightarrow> bool" where
  "is_delete (DELETE_tasks_id params_id) = True"
| "is_delete _ = False"

text \<open>Two request bodies with a title, as a client would send them.\<close>

definition buy_milk :: jsval where
  "buy_milk = JObject [(ascii ''title'', JString (ascii ''Buy milk''))]"

definition buy_eggs :: jsval where
  "buy_eggs = JObject [(ascii ''title'', JString (ascii ''Buy eggs''))]"

section \<open>Properties\<close>

subsection \<open>Lists\<close>

lemma findIndex_None_iff: "findIndex p xs = None \<longleftrightarrow> (\<forall>x \<in> set xs. \<not> p x)"
  by (induction xs) (auto split: option.splits)

lemma findIndex_Some:
  "findIndex p xs = Some i \<Longrightarrow> i < length xs \<and> p (xs ! i) \<and> (\<forall>j < i. \<not> p (xs ! j))"
proof (induction xs arbitrary: i)
  case Nil
  then show ?case by simp
next
  case (Cons x xs)
  show ?case
  proof (cases "p x")
    case True
    with Cons.prems show ?thesis by simp
  next
    case False
    with Cons.prems obtain k where k: "findIndex p xs = Some k" "i = Suc k"
      by (auto split: option.splits)
    from Cons.IH [OF k(1)] False k(2) show ?thesis
      by (auto simp: nth_Cons split: nat.splits)
  qed
qed

lemma findIndex_update:
  "findIndex p xs = Some i \<Longrightarrow> p y \<Longrightarrow> findIndex p (xs[i := y]) = Some i"
proof (induction xs arbitrary: i)
  case Nil
  then show ?case by simp
next
  case (Cons x xs)
  then show ?case
    by (cases "p x") (auto split: option.splits)
qed

lemma map_update_same:
  "i < length xs \<Longrightarrow> f y = f (xs ! i) \<Longrightarrow> map f (xs[i := y]) = map f xs"
  by (simp add: map_update list_update_same_conv)

subsection \<open>Decimal digits through \<open>Number\<close>\<close>

text \<open>
  An integer below \<open>2^53\<close> is a binary64 value: rounding leaves it as it is.
\<close>

lemma round_half_even_of_int [simp]: "round_half_even (of_int m) = m"
  by (simp add: round_half_even_def)

lemma pow2_nonpos: "e \<le> 0 \<Longrightarrow> pow2 e = 1 / 2 ^ nat (- e)"
  by (cases "e = 0") (simp_all add: pow2_def)

lemma floor_log2_of_int_bounds:
  assumes "0 < n" and "n < 2 ^ 53"
  shows "- 1 \<le> floor_log2 (of_int n)" and "floor_log2 (of_int n) \<le> 52"
proof -
  have pos: "0 < nat n" using assms by simp
  have "nat n < 2 ^ 53" using assms by (simp add: nat_less_iff)
  then have le: "floorlog 2 (nat n) \<le> 53"
    by (simp add: floorlog_le_iff)
  have "floorlog 2 (nat n) \<noteq> 0"
    using pos by (simp add: floorlog_eq_zero_iff)
  then have ge: "1 \<le> floorlog 2 (nat n)"
    by simp
  have one: "floorlog 2 (Suc 0) = 1"
    by (simp add: compute_floorlog)
  show "- 1 \<le> floor_log2 (of_int n)" "floor_log2 (of_int n) \<le> 52"
    using le ge by (simp_all add: floor_log2_def Let_def one)
qed

lemma round_binary64_of_int:
  assumes "0 \<le> n" and "n < 2 ^ 53"
  shows "round_binary64 (of_int n) = Fin (of_int n)"
proof (cases "n = 0")
  case True
  then show ?thesis by (simp add: round_binary64_def)
next
  case False
  with assms have pos: "0 < n" by simp
  define e where "e = floor_log2 (of_int n)"
  from floor_log2_of_int_bounds [OF pos assms(2)] have e: "- 1 \<le> e" "e \<le> 52"
    by (simp_all add: e_def)
  define k where "k = nat (52 - e)"
  have m: "max e (- 1022) = e" using e by simp
  have u: "pow2 (e - 52) = 1 / 2 ^ k"
    using e pow2_nonpos [of "e - 52"] by (simp add: k_def)
  have a: "\<bar>rat_of_int n\<bar> = of_int n" using pos by simp
  have q: "rat_of_int n * 2 ^ k = of_int (n * 2 ^ k)" by simp
  have r: "rat_of_int (round_half_even (rat_of_int n * 2 ^ k)) / 2 ^ k = rat_of_int n"
    unfolding q round_half_even_of_int by simp
  have "rat_of_int n < 2 ^ 53" using assms(2)
    by (metis of_int_less_iff of_int_numeral of_int_power)
  also have "(2::rat) ^ 53 \<le> 2 ^ 1024" by (rule power_increasing) simp_all
  finally have small: "\<not> pow2 1024 \<le> rat_of_int n" by (simp add: pow2_def)
  show ?thesis
    using pos small False
    by (simp add: round_binary64_def Let_def e_def [symmetric] m u a r del: of_int_mult)
qed

text \<open>
  A non-empty run of decimal digits is neither white space nor a non-decimal literal nor
  \<open>Infinity\<close>: \<open>Number\<close> gives the integer it denotes, as long as that is exact.
\<close>

lemma is_digit_10_iff: "is_digit 10 c \<longleftrightarrow> 0x30 \<le> c \<and> c \<le> 0x39"
  by (auto simp: is_digit_def digit_value_def word_le_nat_alt)

lemma digit_not_StrWhiteSpaceChar: "is_digit 10 c \<Longrightarrow> \<not> is_StrWhiteSpaceChar c"
  by (auto simp: is_digit_10_iff is_StrWhiteSpaceChar_def word_le_nat_alt)

lemma digit_not_special:
  assumes "is_digit 10 c"
  shows "c \<noteq> 0x2B" "c \<noteq> 0x2D" "c \<noteq> 0x2E" "c \<noteq> 0x49"
    "c \<noteq> 0x78" "c \<noteq> 0x58" "c \<noteq> 0x6F" "c \<noteq> 0x4F" "c \<noteq> 0x62" "c \<noteq> 0x42"
  using assms by (auto simp: is_digit_10_iff word_le_nat_alt)

lemma trim_digits:
  assumes "list_all (is_digit 10) ds"
  shows "trim ds = ds"
proof -
  have nows: "\<forall>c \<in> set ds. \<not> is_StrWhiteSpaceChar c"
    using assms by (auto simp: list_all_iff digit_not_StrWhiteSpaceChar)
  have "dropWhile is_StrWhiteSpaceChar ds = ds"
    using nows by (cases ds) simp_all
  moreover have "dropWhile is_StrWhiteSpaceChar (rev ds) = rev ds"
    using nows by (cases "rev ds") (simp, metis dropWhile.simps(2) list.set_intros(1) set_rev)
  ultimately show ?thesis
    by (simp add: trim_def)
qed

lemma NonDecimalIntegerLiteral_digits:
  assumes "list_all (is_digit 10) ds"
  shows "NonDecimalIntegerLiteral ds = None"
proof (cases ds)
  case Nil
  then show ?thesis by (simp add: NonDecimalIntegerLiteral_def)
next
  case (Cons z r)
  show ?thesis
  proof (cases r)
    case Nil
    with Cons show ?thesis by (simp add: NonDecimalIntegerLiteral_def)
  next
    case (Cons x r')
    with assms \<open>ds = z # r\<close> have "is_digit 10 x" by simp
    from digit_not_special(5-10) [OF this] Cons \<open>ds = z # r\<close> show ?thesis
      by (simp add: NonDecimalIntegerLiteral_def)
  qed
qed

lemma StrUnsignedDecimalLiteral_digits:
  assumes "ds \<noteq> []" and "list_all (is_digit 10) ds"
  shows "StrUnsignedDecimalLiteral ds = Some (of_int (MV 10 ds))"
proof -
  from assms(2) have all: "\<forall>c \<in> set ds. is_digit 10 c"
    by (simp add: list_all_iff)
  then have tw: "takeWhile (is_digit 10) ds = ds" and dw: "dropWhile (is_digit 10) ds = []"
    by simp_all
  have mv0: "MV 10 [] = 0" by (simp add: MV_def)
  show ?thesis
    using assms(1)
    by (simp add: StrUnsignedDecimalLiteral_def tw dw ExponentPart_def pow10_def mv0)
qed

lemma StrDecimalLiteral_digits:
  assumes "ds \<noteq> []" and "list_all (is_digit 10) ds" and "0 \<le> MV 10 ds" and "MV 10 ds < 2 ^ 53"
  shows "StrDecimalLiteral ds = Some (Fin (of_int (MV 10 ds)))"
proof -
  from assms(1) obtain c r where ds: "ds = c # r" by (cases ds) auto
  with assms(2) have c: "is_digit 10 c" by simp
  note sp = digit_not_special [OF c]
  have inf: "ds \<noteq> ascii ''Infinity''"
    using ds sp(4) by (auto simp: ascii_def)
  show ?thesis
    using inf sp(1,2) StrUnsignedDecimalLiteral_digits [OF assms(1,2)]
      round_binary64_of_int [OF assms(3,4)]
    by (simp add: StrDecimalLiteral_def ds)
qed

lemma MV_nonneg: "0 \<le> MV radix ds"
proof -
  have "0 \<le> a \<Longrightarrow> 0 \<le> foldl (\<lambda>a c. a * int radix + (case digit_value c of None \<Rightarrow> 0 | Some d \<Rightarrow> int d)) a ds" for a
    by (induction ds arbitrary: a) (auto split: option.splits)
  then show ?thesis by (simp add: MV_def)
qed

lemma Number_digits:
  assumes "ds \<noteq> []" and "list_all (is_digit 10) ds" and "MV 10 ds < 2 ^ 53"
  shows "Number ds = Fin (of_int (MV 10 ds))"
  using assms
  by (simp add: Number_def trim_digits NonDecimalIntegerLiteral_digits
      StrDecimalLiteral_digits MV_nonneg)

lemma Number_5: "Number (ascii ''5'') = Fin 5"
proof -
  have "ascii ''5'' \<noteq> []" "list_all (is_digit 10) (ascii ''5'')" "MV 10 (ascii ''5'') = 5"
    by (simp_all add: ascii_def is_digit_def digit_value_def MV_def)
  with Number_digits [of "ascii ''5''"] show ?thesis
    by simp
qed

lemma Number_6: "Number (ascii ''6'') = Fin 6"
proof -
  have "ascii ''6'' \<noteq> []" "list_all (is_digit 10) (ascii ''6'')" "MV 10 (ascii ''6'') = 6"
    by (simp_all add: ascii_def is_digit_def digit_value_def MV_def)
  with Number_digits [of "ascii ''6''"] show ?thesis
    by simp
qed

lemma Number_1700000000000: "Number (ascii ''1700000000000'') = Fin 1700000000000"
proof -
  have "ascii ''1700000000000'' \<noteq> []" "list_all (is_digit 10) (ascii ''1700000000000'')"
    "MV 10 (ascii ''1700000000000'') = 1700000000000"
    by (simp_all add: ascii_def is_digit_def digit_value_def MV_def)
  with Number_digits [of "ascii ''1700000000000''"] show ?thesis
    by simp
qed

subsection \<open>\<open>Number\<close> against the grammar of numeric strings\<close>

text \<open>
  Whatever \<open>Number\<close> reads as a number is a StringNumericLiteral.
\<close>

lemma trim_decomposition:
  "\<exists>ws1 ws2. list_all is_StrWhiteSpaceChar ws1 \<and> list_all is_StrWhiteSpaceChar ws2 \<and>
     s = ws1 @ trim s @ ws2"
proof -
  define d where "d = dropWhile is_StrWhiteSpaceChar s"
  have s: "s = takeWhile is_StrWhiteSpaceChar s @ d"
    by (simp add: d_def)
  have "rev (takeWhile is_StrWhiteSpaceChar (rev d) @ dropWhile is_StrWhiteSpaceChar (rev d)) = d"
    by (simp only: takeWhile_dropWhile_id rev_rev_ident)
  then have d: "d = trim s @ rev (takeWhile is_StrWhiteSpaceChar (rev d))"
    by (simp only: rev_append trim_def d_def)
  have w1: "list_all is_StrWhiteSpaceChar (takeWhile is_StrWhiteSpaceChar s)"
    by (auto simp: list_all_iff dest: set_takeWhileD)
  have w2: "list_all is_StrWhiteSpaceChar (rev (takeWhile is_StrWhiteSpaceChar (rev d)))"
    by (auto simp: list_all_iff dest: set_takeWhileD)
  from s d have "s = takeWhile is_StrWhiteSpaceChar s @ trim s @ rev (takeWhile is_StrWhiteSpaceChar (rev d))"
    by simp
  with w1 w2 show ?thesis by blast
qed

lemma NonDecimalIntegerLiteral_sound:
  "NonDecimalIntegerLiteral t = Some n \<Longrightarrow> is_NonDecimalIntegerLiteral t"
  by (auto simp: NonDecimalIntegerLiteral_def is_NonDecimalIntegerLiteral_def Let_def
      split: list.splits if_splits)

lemma ExponentPart_sound:
  "ExponentPart r = Some e \<Longrightarrow> r = [] \<or> is_ExponentPart r"
  by (auto simp: ExponentPart_def is_ExponentPart_def is_SignedInteger_def is_DecimalDigits_def Let_def
      split: list.splits if_splits)

lemma takeWhile_digits: "takeWhile (is_digit 10) u = [] \<or> is_DecimalDigits (takeWhile (is_digit 10) u)"
  by (auto simp: is_DecimalDigits_def list_all_iff dest: set_takeWhileD)

lemma StrUnsignedDecimalLiteral_sound:
  assumes "StrUnsignedDecimalLiteral u = Some v"
  shows "is_StrUnsignedDecimalLiteral u"
proof -
  define ip where "ip = takeWhile (is_digit 10) u"
  define r1 where "r1 = dropWhile (is_digit 10) u"
  have u: "u = ip @ r1" by (simp add: ip_def r1_def)
  have ipd: "ip = [] \<or> is_DecimalDigits ip"
    unfolding ip_def by (rule takeWhile_digits)
  show ?thesis
  proof (cases "\<exists>r. r1 = 0x2E # r")
    case True
    then obtain r where r1: "r1 = 0x2E # r" by blast
    define fp where "fp = takeWhile (is_digit 10) r"
    define r2 where "r2 = dropWhile (is_digit 10) r"
    have r: "r = fp @ r2" by (simp add: fp_def r2_def)
    have fpd: "fp = [] \<or> is_DecimalDigits fp"
      unfolding fp_def by (rule takeWhile_digits)
    from assms have ne: "\<not> (ip = [] \<and> fp = [])" and "ExponentPart r2 \<noteq> None"
      by (auto simp: StrUnsignedDecimalLiteral_def Let_def ip_def [symmetric] r1_def [symmetric] r1
          fp_def [symmetric] r2_def [symmetric] split: if_splits option.splits)
    then have ex: "r2 = [] \<or> is_ExponentPart r2"
      using ExponentPart_sound by blast
    have shape: "u = ip @ 0x2E # fp @ r2"
      using u r1 r by simp
    show ?thesis
    proof (cases "ip = []")
      case True
      with ne fpd have "is_DecimalDigits fp" by simp
      with ex shape True show ?thesis
        unfolding is_StrUnsignedDecimalLiteral_def by auto
    next
      case False
      with ipd have "is_DecimalDigits ip" by simp
      with fpd ex shape show ?thesis
        unfolding is_StrUnsignedDecimalLiteral_def by blast
    qed
  next
    case False
    then have nodot: "(case r1 of [] \<Rightarrow> False | c # _ \<Rightarrow> c = 0x2E) = False"
      by (cases r1) auto
    from assms have ne: "ip \<noteq> []" and "ExponentPart r1 \<noteq> None"
      by (auto simp: StrUnsignedDecimalLiteral_def Let_def ip_def [symmetric] r1_def [symmetric] nodot
          split: if_splits option.splits)
    then have ex: "r1 = [] \<or> is_ExponentPart r1"
      using ExponentPart_sound by blast
    from ne ipd have "is_DecimalDigits ip" by simp
    with ex u show ?thesis
      unfolding is_StrUnsignedDecimalLiteral_def by blast
  qed
qed

lemma StrDecimalLiteral_sound:
  assumes "StrDecimalLiteral t = Some n"
  shows "is_StrDecimalLiteral t"
proof (cases t)
  case Nil
  with assms show ?thesis
    by (auto simp: StrDecimalLiteral_def Let_def ascii_def StrUnsignedDecimalLiteral_def ExponentPart_def
        split: if_splits option.splits)
next
  case (Cons c r)
  show ?thesis
  proof (cases "c = 0x2B \<or> c = 0x2D")
    case True
    with assms Cons have "r = ascii ''Infinity'' \<or> StrUnsignedDecimalLiteral r \<noteq> None"
      by (auto simp: StrDecimalLiteral_def Let_def split: if_splits option.splits)
    then have "is_StrUnsignedDecimalLiteral r"
      using StrUnsignedDecimalLiteral_sound by (auto simp: is_StrUnsignedDecimalLiteral_def)
    with True Cons show ?thesis
      unfolding is_StrDecimalLiteral_def by blast
  next
    case False
    with assms Cons have "t = ascii ''Infinity'' \<or> StrUnsignedDecimalLiteral t \<noteq> None"
      by (auto simp: StrDecimalLiteral_def Let_def split: if_splits option.splits)
    then have "is_StrUnsignedDecimalLiteral t"
      using StrUnsignedDecimalLiteral_sound by (auto simp: is_StrUnsignedDecimalLiteral_def)
    then show ?thesis
      unfolding is_StrDecimalLiteral_def by blast
  qed
qed

lemma Number_sound:
  assumes "Number s \<noteq> NaN"
  shows "is_StringNumericLiteral s"
proof -
  from trim_decomposition [of s] obtain ws1 ws2 where
    ws: "list_all is_StrWhiteSpaceChar ws1" "list_all is_StrWhiteSpaceChar ws2"
      "s = ws1 @ trim s @ ws2"
    by blast
  from assms have "trim s = [] \<or> NonDecimalIntegerLiteral (trim s) \<noteq> None \<or>
      StrDecimalLiteral (trim s) \<noteq> None"
    by (auto simp: Number_def Let_def split: if_splits option.splits)
  then have "trim s = [] \<or> is_StrDecimalLiteral (trim s) \<or> is_NonDecimalIntegerLiteral (trim s)"
    using NonDecimalIntegerLiteral_sound StrDecimalLiteral_sound by blast
  with ws show ?thesis
    unfolding is_StringNumericLiteral_def by blast
qed

text \<open>
  Conversely every StringNumericLiteral is read as a number: no code unit of a literal
  is white space, so trimming gives the literal back, and each shape of literal is
  accepted.
\<close>

lemma round_binary64_not_NaN [simp]: "round_binary64 q \<noteq> NaN"
  by (simp add: round_binary64_def Let_def)

lemma run_then_rest:
  assumes "list_all P xs" and "ys = [] \<or> \<not> P (hd ys)"
  shows "takeWhile P (xs @ ys) = xs" and "dropWhile P (xs @ ys) = ys"
proof -
  from assms(2) have ys: "takeWhile P ys = []" "dropWhile P ys = ys"
    by (cases ys; simp)+
  from assms(1) show "takeWhile P (xs @ ys) = xs" "dropWhile P (xs @ ys) = ys"
    by (induction xs) (simp_all add: ys)
qed

lemma is_digit_mono: "is_digit r c \<Longrightarrow> r \<le> 16 \<Longrightarrow> is_digit 16 c"
  by (auto simp: is_digit_def split: option.splits)

lemma digit16_not_StrWhiteSpaceChar: "is_digit 16 c \<Longrightarrow> \<not> is_StrWhiteSpaceChar c"
  by (auto simp: is_digit_def digit_value_def is_StrWhiteSpaceChar_def word_le_nat_alt
      split: if_splits)

lemma digit_any_not_StrWhiteSpaceChar:
  "is_digit 2 c \<or> is_digit 8 c \<or> is_digit 16 c \<Longrightarrow> \<not> is_StrWhiteSpaceChar c"
  using is_digit_mono [of 2 c] is_digit_mono [of 8 c] digit16_not_StrWhiteSpaceChar [of c]
  by auto

lemma sign_not_StrWhiteSpaceChar [simp]:
  "\<not> is_StrWhiteSpaceChar 0x2B" "\<not> is_StrWhiteSpaceChar 0x2D" "\<not> is_StrWhiteSpaceChar 0x2E"
  "\<not> is_StrWhiteSpaceChar 0x65" "\<not> is_StrWhiteSpaceChar 0x45" "\<not> is_StrWhiteSpaceChar 0x30"
  "\<not> is_StrWhiteSpaceChar 0x78" "\<not> is_StrWhiteSpaceChar 0x58" "\<not> is_StrWhiteSpaceChar 0x6F"
  "\<not> is_StrWhiteSpaceChar 0x4F" "\<not> is_StrWhiteSpaceChar 0x62" "\<not> is_StrWhiteSpaceChar 0x42"
  by (simp_all add: is_StrWhiteSpaceChar_def)

lemma DecimalDigits_no_ws:
  "is_DecimalDigits ds \<Longrightarrow> c \<in> set ds \<Longrightarrow> \<not> is_StrWhiteSpaceChar c"
  by (auto simp: is_DecimalDigits_def list_all_iff digit_not_StrWhiteSpaceChar)

lemma ExponentPart_no_ws:
  "is_ExponentPart ex \<Longrightarrow> c \<in> set ex \<Longrightarrow> \<not> is_StrWhiteSpaceChar c"
  by (auto simp: is_ExponentPart_def is_SignedInteger_def dest: DecimalDigits_no_ws)

lemma Infinity_no_ws: "c \<in> set (ascii ''Infinity'') \<Longrightarrow> \<not> is_StrWhiteSpaceChar c"
  by (auto simp: ascii_def is_StrWhiteSpaceChar_def)

lemma StrUnsignedDecimalLiteral_no_ws:
  "is_StrUnsignedDecimalLiteral u \<Longrightarrow> c \<in> set u \<Longrightarrow> \<not> is_StrWhiteSpaceChar c"
  unfolding is_StrUnsignedDecimalLiteral_def
  by (auto dest: DecimalDigits_no_ws ExponentPart_no_ws Infinity_no_ws)

lemma StrDecimalLiteral_no_ws:
  "is_StrDecimalLiteral t \<Longrightarrow> c \<in> set t \<Longrightarrow> \<not> is_StrWhiteSpaceChar c"
  unfolding is_StrDecimalLiteral_def
  by (auto dest: StrUnsignedDecimalLiteral_no_ws)

lemma NonDecimalIntegerLiteral_no_ws:
  "is_NonDecimalIntegerLiteral t \<Longrightarrow> c \<in> set t \<Longrightarrow> \<not> is_StrWhiteSpaceChar c"
  unfolding is_NonDecimalIntegerLiteral_def
  using digit_any_not_StrWhiteSpaceChar [of c]
  by (auto simp: list_all_iff)

lemma trim_padded:
  assumes "list_all is_StrWhiteSpaceChar ws1" and "list_all is_StrWhiteSpaceChar ws2"
    and "\<forall>c \<in> set t. \<not> is_StrWhiteSpaceChar c"
  shows "trim (ws1 @ t @ ws2) = t"
proof (cases "t = []")
  case True
  from assms(1,2) have e: "dropWhile is_StrWhiteSpaceChar (ws1 @ ws2) = []"
    by (simp add: dropWhile_eq_Nil_conv list_all_iff)
  show ?thesis
    unfolding True trim_def by (simp only: append_Nil e rev.simps dropWhile.simps)
next
  case False
  then have hd: "\<not> is_StrWhiteSpaceChar (hd t)" and lst: "\<not> is_StrWhiteSpaceChar (last t)"
    using assms(3) by simp_all
  have "dropWhile is_StrWhiteSpaceChar (ws1 @ (t @ ws2)) = t @ ws2"
    using assms(1) False hd by (intro run_then_rest(2)) simp_all
  moreover have "dropWhile is_StrWhiteSpaceChar (rev ws2 @ rev t) = rev t"
    using assms(2) False lst by (intro run_then_rest(2)) (simp_all add: hd_rev)
  ultimately show ?thesis
    by (simp only: trim_def rev_append rev_rev_ident)
qed

lemma not_decimal_digit [simp]:
  "\<not> is_digit 10 0x2E" "\<not> is_digit 10 0x65" "\<not> is_digit 10 0x45"
  "\<not> is_digit 10 0x2B" "\<not> is_digit 10 0x2D"
  by (simp_all add: is_digit_def digit_value_def)

lemma DecimalDigits_hd:
  assumes "is_DecimalDigits ds"
  shows "ds \<noteq> []" "is_digit 10 (hd ds)" "list_all (is_digit 10) ds"
  using assms by (cases ds; simp add: is_DecimalDigits_def)+

lemma SignedInteger_complete:
  assumes "is_SignedInteger si"
  shows "(case si of [] \<Rightarrow> [] | x # r' \<Rightarrow> if x = 0x2B \<or> x = 0x2D then r' else si) \<noteq> [] \<and>
         list_all (is_digit 10)
           (case si of [] \<Rightarrow> [] | x # r' \<Rightarrow> if x = 0x2B \<or> x = 0x2D then r' else si)"
proof -
  from assms consider (plain) "is_DecimalDigits si"
    | (signed) ds where "is_DecimalDigits ds" "si = 0x2B # ds \<or> si = 0x2D # ds"
    unfolding is_SignedInteger_def by blast
  then show ?thesis
  proof cases
    case plain
    then obtain c r where si: "si = c # r" and c: "is_digit 10 c"
      by (cases si) (auto simp: is_DecimalDigits_def)
    from digit_not_special(1,2) [OF c] plain si show ?thesis
      by (simp add: is_DecimalDigits_def)
  next
    case signed
    then show ?thesis
      by (auto simp: is_DecimalDigits_def)
  qed
qed

lemma ExponentPart_complete:
  assumes "ex = [] \<or> is_ExponentPart ex"
  shows "ExponentPart ex \<noteq> None"
proof (cases "ex = []")
  case True
  then show ?thesis by (simp add: ExponentPart_def)
next
  case False
  with assms obtain c si where ex: "ex = c # si" "c = 0x65 \<or> c = 0x45" "is_SignedInteger si"
    unfolding is_ExponentPart_def by blast
  from SignedInteger_complete [OF ex(3)] ex(1,2) show ?thesis
    by (auto simp: ExponentPart_def Let_def)
qed

lemma ExponentPart_hd:
  assumes "ex = [] \<or> is_ExponentPart ex"
  shows "ex = [] \<or> \<not> is_digit 10 (hd ex)" and "(case ex of [] \<Rightarrow> False | c # _ \<Rightarrow> c = 0x2E) = False"
  using assms by (auto simp: is_ExponentPart_def)

lemma StrUnsignedDecimalLiteral_eval:
  assumes "takeWhile (is_digit 10) u = ip" and "dropWhile (is_digit 10) u = r1"
    and "(case r1 of [] \<Rightarrow> False | c # _ \<Rightarrow> c = 0x2E) = dot"
    and "(if dot then takeWhile (is_digit 10) (tl r1) else []) = fp"
    and "(if dot then dropWhile (is_digit 10) (tl r1) else r1) = r2"
    and "ip \<noteq> [] \<or> fp \<noteq> []" and "ExponentPart r2 \<noteq> None"
  shows "StrUnsignedDecimalLiteral u \<noteq> None"
proof -
  from assms(7) obtain e where e: "ExponentPart r2 = Some e" by auto
  have "StrUnsignedDecimalLiteral u =
      (if ip = [] \<and> fp = [] then None
       else case ExponentPart r2 of
                None \<Rightarrow> None
              | Some e \<Rightarrow>
                  Some ((of_int (MV 10 ip) + of_int (MV 10 fp) / 10 ^ length fp) * pow10 e))"
    unfolding StrUnsignedDecimalLiteral_def Let_def assms(1) assms(2) assms(3) assms(4) assms(5)
    by (rule refl)
  with assms(6) e show ?thesis by auto
qed

lemma shape_point:
  assumes "is_DecimalDigits ip" and "fp = [] \<or> is_DecimalDigits fp"
    and "ex = [] \<or> is_ExponentPart ex"
  shows "StrUnsignedDecimalLiteral (ip @ 0x2E # fp @ ex) \<noteq> None"
proof (rule StrUnsignedDecimalLiteral_eval)
  have fpl: "list_all (is_digit 10) fp"
    using assms(2) by (auto simp: is_DecimalDigits_def)
  show "takeWhile (is_digit 10) (ip @ 0x2E # fp @ ex) = ip"
    by (rule run_then_rest(1)) (simp_all add: DecimalDigits_hd(3) [OF assms(1)])
  show "dropWhile (is_digit 10) (ip @ 0x2E # fp @ ex) = 0x2E # fp @ ex"
    by (rule run_then_rest(2)) (simp_all add: DecimalDigits_hd(3) [OF assms(1)])
  show "(case 0x2E # fp @ ex of [] \<Rightarrow> False | c # _ \<Rightarrow> c = (0x2E :: 16 word)) = True"
    by simp
  show "(if True then takeWhile (is_digit 10) (tl (0x2E # fp @ ex)) else []) = fp"
    using run_then_rest(1) [OF fpl ExponentPart_hd(1) [OF assms(3)]] by simp
  show "(if True then dropWhile (is_digit 10) (tl (0x2E # fp @ ex)) else 0x2E # fp @ ex) = ex"
    using run_then_rest(2) [OF fpl ExponentPart_hd(1) [OF assms(3)]] by simp
  show "ip \<noteq> [] \<or> fp \<noteq> []"
    using DecimalDigits_hd(1) [OF assms(1)] by simp
  show "ExponentPart ex \<noteq> None"
    by (rule ExponentPart_complete [OF assms(3)])
qed

lemma shape_fraction:
  assumes "is_DecimalDigits fp" and "ex = [] \<or> is_ExponentPart ex"
  shows "StrUnsignedDecimalLiteral (0x2E # fp @ ex) \<noteq> None"
proof (rule StrUnsignedDecimalLiteral_eval)
  note fpl = DecimalDigits_hd(3) [OF assms(1)]
  show "takeWhile (is_digit 10) (0x2E # fp @ ex) = []"
    by simp
  show "dropWhile (is_digit 10) (0x2E # fp @ ex) = 0x2E # fp @ ex"
    by simp
  show "(case 0x2E # fp @ ex of [] \<Rightarrow> False | c # _ \<Rightarrow> c = (0x2E :: 16 word)) = True"
    by simp
  show "(if True then takeWhile (is_digit 10) (tl (0x2E # fp @ ex)) else []) = fp"
    using run_then_rest(1) [OF fpl ExponentPart_hd(1) [OF assms(2)]] by simp
  show "(if True then dropWhile (is_digit 10) (tl (0x2E # fp @ ex)) else 0x2E # fp @ ex) = ex"
    using run_then_rest(2) [OF fpl ExponentPart_hd(1) [OF assms(2)]] by simp
  show "[] \<noteq> [] \<or> fp \<noteq> []"
    using DecimalDigits_hd(1) [OF assms(1)] by simp
  show "ExponentPart ex \<noteq> None"
    by (rule ExponentPart_complete [OF assms(2)])
qed

lemma shape_whole:
  assumes "is_DecimalDigits ip" and "ex = [] \<or> is_ExponentPart ex"
  shows "StrUnsignedDecimalLiteral (ip @ ex) \<noteq> None"
proof (rule StrUnsignedDecimalLiteral_eval)
  note ipl = DecimalDigits_hd(3) [OF assms(1)]
  show "takeWhile (is_digit 10) (ip @ ex) = ip"
    by (rule run_then_rest(1) [OF ipl ExponentPart_hd(1) [OF assms(2)]])
  show "dropWhile (is_digit 10) (ip @ ex) = ex"
    by (rule run_then_rest(2) [OF ipl ExponentPart_hd(1) [OF assms(2)]])
  show "(case ex of [] \<Rightarrow> False | c # _ \<Rightarrow> c = (0x2E :: 16 word)) = False"
    by (rule ExponentPart_hd(2) [OF assms(2)])
  show "(if False then takeWhile (is_digit 10) (tl ex) else []) = []"
    by simp
  show "(if False then dropWhile (is_digit 10) (tl ex) else ex) = ex"
    by simp
  show "ip \<noteq> [] \<or> [] \<noteq> []"
    using DecimalDigits_hd(1) [OF assms(1)] by simp
  show "ExponentPart ex \<noteq> None"
    by (rule ExponentPart_complete [OF assms(2)])
qed

lemma StrUnsignedDecimalLiteral_complete:
  assumes "is_StrUnsignedDecimalLiteral u" and "u \<noteq> ascii ''Infinity''"
  shows "StrUnsignedDecimalLiteral u \<noteq> None"
proof -
  from assms have "(\<exists>ip fp ex. is_DecimalDigits ip \<and> (fp = [] \<or> is_DecimalDigits fp) \<and>
        (ex = [] \<or> is_ExponentPart ex) \<and> u = ip @ 0x2E # fp @ ex) \<or>
     (\<exists>fp ex. is_DecimalDigits fp \<and> (ex = [] \<or> is_ExponentPart ex) \<and> u = 0x2E # fp @ ex) \<or>
     (\<exists>ip ex. is_DecimalDigits ip \<and> (ex = [] \<or> is_ExponentPart ex) \<and> u = ip @ ex)"
    unfolding is_StrUnsignedDecimalLiteral_def by (elim disjE) (simp, iprover+)
  then show ?thesis
  proof (elim disjE)
    assume "\<exists>ip fp ex. is_DecimalDigits ip \<and> (fp = [] \<or> is_DecimalDigits fp) \<and>
        (ex = [] \<or> is_ExponentPart ex) \<and> u = ip @ 0x2E # fp @ ex"
    then obtain ip fp ex where "is_DecimalDigits ip" "fp = [] \<or> is_DecimalDigits fp"
      "ex = [] \<or> is_ExponentPart ex" "u = ip @ 0x2E # fp @ ex"
      by iprover
    then show ?thesis
      using shape_point by iprover
  next
    assume "\<exists>fp ex. is_DecimalDigits fp \<and> (ex = [] \<or> is_ExponentPart ex) \<and> u = 0x2E # fp @ ex"
    then obtain fp ex where "is_DecimalDigits fp" "ex = [] \<or> is_ExponentPart ex"
      "u = 0x2E # fp @ ex"
      by iprover
    then show ?thesis
      using shape_fraction by iprover
  next
    assume "\<exists>ip ex. is_DecimalDigits ip \<and> (ex = [] \<or> is_ExponentPart ex) \<and> u = ip @ ex"
    then obtain ip ex where "is_DecimalDigits ip" "ex = [] \<or> is_ExponentPart ex" "u = ip @ ex"
      by iprover
    then show ?thesis
      using shape_whole by iprover
  qed
qed

lemma StrUnsignedDecimalLiteral_hd:
  assumes "is_StrUnsignedDecimalLiteral u"
  shows "u \<noteq> [] \<and> hd u \<noteq> 0x2B \<and> hd u \<noteq> 0x2D"
proof -
  have d: "is_DecimalDigits ds \<Longrightarrow> ds \<noteq> [] \<and> hd ds \<noteq> 0x2B \<and> hd ds \<noteq> 0x2D" for ds
    using DecimalDigits_hd [of ds] digit_not_special(1,2) [of "hd ds"] by simp
  from assms show ?thesis
    unfolding is_StrUnsignedDecimalLiteral_def
    by (auto simp: ascii_def dest: d)
qed

lemma StrDecimalLiteral_result:
  assumes "is_StrUnsignedDecimalLiteral u"
  shows "\<exists>n. (if u = ascii ''Infinity'' then Some (if neg then NegInfinity else PosInfinity)
         else case StrUnsignedDecimalLiteral u of
                None \<Rightarrow> None
              | Some v \<Rightarrow> Some (round_binary64 (if neg then - v else v))) = Some n \<and> n \<noteq> NaN"
proof (cases "u = ascii ''Infinity''")
  case True
  then show ?thesis by simp
next
  case False
  with StrUnsignedDecimalLiteral_complete [OF assms] obtain v where
    "StrUnsignedDecimalLiteral u = Some v"
    by auto
  with False show ?thesis by simp
qed

lemma StrDecimalLiteral_complete:
  assumes "is_StrDecimalLiteral t"
  shows "\<exists>n. StrDecimalLiteral t = Some n \<and> n \<noteq> NaN"
proof -
  from assms consider (plain) "is_StrUnsignedDecimalLiteral t"
    | (signed) u where "is_StrUnsignedDecimalLiteral u" "t = 0x2B # u \<or> t = 0x2D # u"
    unfolding is_StrDecimalLiteral_def by blast
  then show ?thesis
  proof cases
    case plain
    from StrUnsignedDecimalLiteral_hd [OF plain] obtain c r where
      t: "t = c # r" "c \<noteq> 0x2B" "c \<noteq> 0x2D"
      by (cases t) auto
    from plain t(1) have "is_StrUnsignedDecimalLiteral (c # r)"
      by simp
    from StrDecimalLiteral_result [OF this, of False] t(2,3) show ?thesis
      unfolding t(1) by (simp add: StrDecimalLiteral_def Let_def)
  next
    case signed
    from signed(2) show ?thesis
    proof
      assume "t = 0x2B # u"
      with StrDecimalLiteral_result [OF signed(1), of False] show ?thesis
        by (simp add: StrDecimalLiteral_def Let_def)
    next
      assume "t = 0x2D # u"
      with StrDecimalLiteral_result [OF signed(1), of True] show ?thesis
        by (simp add: StrDecimalLiteral_def Let_def)
    qed
  qed
qed

lemma NonDecimalIntegerLiteral_not_NaN:
  "NonDecimalIntegerLiteral t = Some n \<Longrightarrow> n \<noteq> NaN"
  by (auto simp: NonDecimalIntegerLiteral_def Let_def split: list.splits if_splits)

lemma NonDecimalIntegerLiteral_complete:
  assumes "is_NonDecimalIntegerLiteral t"
  shows "NonDecimalIntegerLiteral t \<noteq> None"
  using assms
  by (auto simp: is_NonDecimalIntegerLiteral_def NonDecimalIntegerLiteral_def Let_def)

lemma Number_complete:
  assumes "is_StringNumericLiteral s"
  shows "Number s \<noteq> NaN"
proof -
  from assms obtain ws1 t ws2 where
    ws: "list_all is_StrWhiteSpaceChar ws1" "list_all is_StrWhiteSpaceChar ws2" and
    t: "t = [] \<or> is_StrDecimalLiteral t \<or> is_NonDecimalIntegerLiteral t" and
    s: "s = ws1 @ t @ ws2"
    unfolding is_StringNumericLiteral_def by blast
  from t have "\<forall>c \<in> set t. \<not> is_StrWhiteSpaceChar c"
    using StrDecimalLiteral_no_ws NonDecimalIntegerLiteral_no_ws by auto
  with ws have trim: "trim s = t"
    unfolding s by (rule trim_padded)
  show ?thesis
  proof (cases "NonDecimalIntegerLiteral t")
    case (Some n)
    with NonDecimalIntegerLiteral_not_NaN [OF Some] show ?thesis
      by (simp add: Number_def trim)
  next
    case None
    with t NonDecimalIntegerLiteral_complete [of t] have "t = [] \<or> is_StrDecimalLiteral t"
      by auto
    then show ?thesis
    proof
      assume "t = []"
      then show ?thesis by (simp add: Number_def trim)
    next
      assume "is_StrDecimalLiteral t"
      from StrDecimalLiteral_complete [OF this] None show ?thesis
        by (auto simp: Number_def trim)
    qed
  qed
qed

lemma Number_NaN_iff: "Number s = NaN \<longleftrightarrow> \<not> is_StringNumericLiteral s"
  using Number_sound Number_complete by blast

lemma Number_blank:
  assumes "list_all is_StrWhiteSpaceChar s"
  shows "Number s = Fin 0"
proof -
  from assms have e: "dropWhile is_StrWhiteSpaceChar s = []"
    by (simp add: dropWhile_eq_Nil_conv list_all_iff)
  have "trim s = []"
    unfolding trim_def e by simp
  then show ?thesis
    by (simp add: Number_def)
qed

lemma ToString_5000: "ToString 5000 = ascii ''5000''"
  by (simp add: ToString.simps ascii_def)

lemma ToString_3000: "ToString 3000 = ascii ''3000''"
  by (simp add: ToString.simps ascii_def)

subsection \<open>The handlers, case by case\<close>

lemma has_id_NaN [simp]: "\<not> has_id NaN task"
  by (simp add: has_id_def strict_equals_def)

lemma has_id_Fin: "has_id (Fin q) task \<longleftrightarrow> q = of_int (id' task)"
  by (auto simp: has_id_def strict_equals_def)

lemma has_id_iff: "has_id n task \<longleftrightarrow> n = Fin (of_int (id' task))"
  by (auto simp: has_id_def strict_equals_def)

lemma has_id_toggled [simp]: "has_id n (toggled task) = has_id n task"
  by (simp add: has_id_def toggled_def)

lemma toggled_toggled [simp]: "toggled (toggled task) = task"
  by (simp add: toggled_def)

lemma toggled_fields [simp]:
  "id' (toggled task) = id' task" "title (toggled task) = title task"
  "completed (toggled task) = (\<not> completed task)"
  by (simp_all add: toggled_def)

lemma index_post_tasks_created:
  assumes "destructure req_body (ascii ''title'') = Inr v" and "ToBoolean v"
  shows "index_post_tasks now req_body tasks =
           (Sent \<lparr>status = 201, body = TaskObject \<lparr>id' = now, title = v, completed = False\<rparr>\<rparr>,
            tasks @ [\<lparr>id' = now, title = v, completed = False\<rparr>])"
  using assms by (simp add: index_post_tasks_def Let_def)

lemma index_post_tasks_rejected:
  assumes "destructure req_body (ascii ''title'') = Inr v" and "\<not> ToBoolean v"
  shows "index_post_tasks now req_body tasks =
           (Sent \<lparr>status = 400, body = ErrorObject (ascii ''Title is required'')\<rparr>, tasks)"
  using assms by (simp add: index_post_tasks_def)

lemma index_post_tasks_threw:
  assumes "destructure req_body (ascii ''title'') = Inl e"
  shows "index_post_tasks now req_body tasks = (Threw e, tasks)"
  using assms by (simp add: index_post_tasks_def)

lemma index_put_tasks_id_found:
  assumes "findIndex (has_id (Number params_id)) tasks = Some i"
  shows "index_put_tasks_id params_id tasks =
           (Sent \<lparr>status = 200, body = TaskObject (toggled (tasks ! i))\<rparr>,
            tasks[i := toggled (tasks ! i)])"
  using assms by (simp add: index_put_tasks_id_def Let_def has_id_def[abs_def] toggled_def)

lemma index_put_tasks_id_missing:
  assumes "findIndex (has_id (Number params_id)) tasks = None"
  shows "index_put_tasks_id params_id tasks =
           (Sent \<lparr>status = 404, body = ErrorObject (ascii ''Task not found'')\<rparr>, tasks)"
  using assms by (simp add: index_put_tasks_id_def has_id_def[abs_def])

lemma index_delete_tasks_id_eq:
  "index_delete_tasks_id params_id tasks =
     (Sent \<lparr>status = 200, body = MessageObject (ascii ''Task deleted successfully'')\<rparr>,
      filter (\<lambda>task. \<not> has_id (Number params_id) task) tasks)"
  by (simp add: index_delete_tasks_id_def Let_def has_id_def[abs_def])

lemma present_findIndex:
  assumes "t \<in> set tasks" and "Number params_id = Fin (of_int (id' t))"
  obtains i where "findIndex (has_id (Number params_id)) tasks = Some i"
proof (cases "findIndex (has_id (Number params_id)) tasks")
  case None
  with assms show ?thesis
    by (auto simp: findIndex_None_iff has_id_iff)
next
  case (Some i)
  then show ?thesis by (rule that)
qed

lemma is_integer_of_int [simp]: "is_integer (Fin (of_int i))"
  by simp

lemma not_integer_no_task:
  assumes "\<not> is_integer (Number params_id)"
  shows "\<not> has_id (Number params_id) task"
  using assms by (auto simp: has_id_iff)

lemma index_put_tasks_id_not_integer:
  assumes "\<not> is_integer (Number params_id)"
  shows "index_put_tasks_id params_id tasks =
           (Sent \<lparr>status = 404, body = ErrorObject (ascii ''Task not found'')\<rparr>, tasks)"
proof -
  have "findIndex (has_id (Number params_id)) tasks = None"
    using not_integer_no_task [OF assms] by (simp add: findIndex_None_iff)
  then show ?thesis by (rule index_put_tasks_id_missing)
qed

lemma index_delete_tasks_id_not_integer:
  assumes "\<not> is_integer (Number params_id)"
  shows "index_delete_tasks_id params_id tasks =
           (Sent \<lparr>status = 200, body = MessageObject (ascii ''Task deleted successfully'')\<rparr>,
            tasks)"
  using not_integer_no_task [OF assms] by (simp add: index_delete_tasks_id_eq)

lemma index_post_tasks_no_title:
  assumes "destructure req_body (ascii ''title'') = Inr v"
    and "v = JUndefined \<or> v = JNull \<or> v = JString []"
  shows "index_post_tasks now req_body tasks =
           (Sent \<lparr>status = 400, body = ErrorObject (ascii ''Title is required'')\<rparr>, tasks)"
proof -
  from assms(2) have "\<not> ToBoolean v" by auto
  with assms(1) show ?thesis by (rule index_post_tasks_rejected)
qed

subsection \<open>Runs of requests\<close>

lemma created_tasks_single_not_task:
  "(\<And>t. body r \<noteq> TaskObject t) \<Longrightarrow> created_tasks (Sent r # rest) = created_tasks rest"
  by (cases "body r") auto

lemma index_app_keys_no_delete:
  assumes "\<not> is_delete req"
  shows "map id' (snd (index_app now req tasks)) =
           map id' tasks @ map id' (created_tasks [fst (index_app now req tasks)]) \<and>
         map title (snd (index_app now req tasks)) =
           map title tasks @ map title (created_tasks [fst (index_app now req tasks)])"
proof (cases req)
  case GET_root
  then show ?thesis by (simp add: index_get_root_def)
next
  case GET_tasks
  then show ?thesis by (simp add: index_get_tasks_def)
next
  case (POST_tasks req_body)
  then show ?thesis
    by (simp add: index_post_tasks_def Let_def split: sum.splits)
next
  case (PUT_tasks_id params_id)
  show ?thesis
  proof (cases "findIndex (has_id (Number params_id)) tasks")
    case None
    with PUT_tasks_id show ?thesis
      by (simp add: index_put_tasks_id_missing)
  next
    case (Some i)
    from findIndex_Some [OF Some] have "i < length tasks" by simp
    with PUT_tasks_id Some show ?thesis
      by (simp add: index_put_tasks_id_found map_update_same)
  qed
next
  case (DELETE_tasks_id params_id)
  with assms show ?thesis by simp
qed

lemma created_tasks_Cons:
  "created_tasks (x # rest) = created_tasks [x] @ created_tasks rest"
  by (cases x) (auto split: payload.splits)

lemma index_run_keys_no_delete:
  assumes "\<forall>r \<in> set reqs. \<not> is_delete (snd r)"
  shows "map id' (index_run reqs tasks) =
           map id' tasks @ map id' (created_tasks (index_responses reqs tasks)) \<and>
         map title (index_run reqs tasks) =
           map title tasks @ map title (created_tasks (index_responses reqs tasks))"
  using assms
proof (induction reqs arbitrary: tasks)
  case Nil
  then show ?case by simp
next
  case (Cons r reqs)
  obtain now req where r: "r = (now, req)" by (cases r)
  from Cons.prems r have nd: "\<not> is_delete req" and rest: "\<forall>r \<in> set reqs. \<not> is_delete (snd r)"
    by simp_all
  note step = index_app_keys_no_delete [OF nd, of now tasks]
  note ih = Cons.IH [OF rest, of "snd (index_app now req tasks)"]
  have split: "created_tasks (index_responses (r # reqs) tasks) =
      created_tasks [fst (index_app now req tasks)] @
      created_tasks (index_responses reqs (snd (index_app now req tasks)))"
    unfolding r index_responses.simps by (rule created_tasks_Cons)
  show ?case
    unfolding split unfolding r index_run.simps using step ih by simp
qed

lemma filter_has_id_le_one:
  assumes "distinct (map id' tasks)"
  shows "length (filter (has_id n) tasks) \<le> 1"
  using assms
proof (induction tasks)
  case Nil
  then show ?case by simp
next
  case (Cons t tasks)
  show ?case
  proof (cases "has_id n t")
    case True
    have "filter (has_id n) tasks = []"
    proof (rule ccontr)
      assume "filter (has_id n) tasks \<noteq> []"
      then obtain u where u: "u \<in> set tasks" "has_id n u"
        by (auto simp: filter_empty_conv)
      with True have "id' u = id' t"
        by (simp add: has_id_iff)
      with u(1) Cons.prems show False
        by (auto simp: image_iff)
    qed
    with True show ?thesis by simp
  next
    case False
    with Cons show ?thesis by simp
  qed
qed

lemma index_delete_tasks_id_distinct:
  assumes "distinct (map id' tasks)"
  shows "length tasks \<le> Suc (length (snd (index_delete_tasks_id params_id tasks)))"
proof -
  have "length tasks = length (filter (has_id (Number params_id)) tasks) +
      length (filter (\<lambda>task. \<not> has_id (Number params_id) task) tasks)"
    by (simp add: sum_length_filter_compl)
  with filter_has_id_le_one [OF assms, of "Number params_id"] show ?thesis
    by (simp add: index_delete_tasks_id_eq)
qed

lemma index_app_titles:
  assumes "\<forall>t \<in> set tasks. ToBoolean (title t)"
  shows "\<forall>t \<in> set (snd (index_app now req tasks)). ToBoolean (title t)"
proof (cases req)
  case GET_root
  with assms show ?thesis by (simp add: index_get_root_def)
next
  case GET_tasks
  with assms show ?thesis by (simp add: index_get_tasks_def)
next
  case (POST_tasks req_body)
  with assms show ?thesis
    by (auto simp: index_post_tasks_def Let_def split: sum.splits)
next
  case (PUT_tasks_id params_id)
  show ?thesis
  proof (cases "findIndex (has_id (Number params_id)) tasks")
    case None
    with PUT_tasks_id assms show ?thesis
      by (simp add: index_put_tasks_id_missing)
  next
    case (Some i)
    from findIndex_Some [OF Some] have "i < length tasks" by simp
    with assms have "ToBoolean (title (toggled (tasks ! i)))" by simp
    with PUT_tasks_id Some assms show ?thesis
      by (auto simp: index_put_tasks_id_found dest!: set_update_subset_insert [THEN subsetD])
  qed
next
  case (DELETE_tasks_id params_id)
  with assms show ?thesis by (simp add: index_delete_tasks_id_eq)
qed

lemma index_run_titles:
  "\<forall>t \<in> set tasks. ToBoolean (title t) \<Longrightarrow>
   \<forall>t \<in> set (index_run reqs tasks). ToBoolean (title t)"
proof (induction reqs arbitrary: tasks)
  case Nil
  then show ?case by simp
next
  case (Cons r reqs)
  obtain now req where r: "r = (now, req)" by (cases r)
  from Cons.IH [OF index_app_titles [OF Cons.prems, of now req]] show ?case
    by (simp add: r)
qed

lemma index_run_title_not_empty:
  "t \<in> set (index_run reqs []) \<Longrightarrow> title t \<noteq> JString []"
  using index_run_titles [of "[]" reqs] by auto

section \<open>The claims\<close>

text \<open>
  C1. For every non-empty title, create allocates a new id, appends a task with
  \<open>completed = false\<close>, returns it with status 201, and the registry grows by one.
  The response, the appended task and the growth are as claimed (lemma
  \<open>index_post_tasks_created\<close>), but the id is the clock reading, and it is not new when
  another task was created in the same millisecond. Evaluated here: the registry holds the
  task created at clock 1700000000000; a second create at the same clock reading answers
  201 with a task of that same id.
\<close>

theorem create_same_millisecond_id_not_new:
  "index_run [(1700000000000, POST_tasks buy_milk)] [] =
     [\<lparr>id' = 1700000000000, title = JString (ascii ''Buy milk''), completed = False\<rparr>] \<and>
   index_post_tasks 1700000000000 buy_eggs
     [\<lparr>id' = 1700000000000, title = JString (ascii ''Buy milk''), completed = False\<rparr>] =
     (Sent \<lparr>status = 201,
            body = TaskObject \<lparr>id' = 1700000000000, title = JString (ascii ''Buy eggs''),
                               completed = False\<rparr>\<rparr>,
      [\<lparr>id' = 1700000000000, title = JString (ascii ''Buy milk''), completed = False\<rparr>,
       \<lparr>id' = 1700000000000, title = JString (ascii ''Buy eggs''), completed = False\<rparr>])"
  by (simp add: index_post_tasks_def buy_milk_def buy_eggs_def ascii_def Let_def)

text \<open>
  C2. In every reachable registry all ids are pairwise distinct, ids never change and no
  title is the empty string. Titles stay truthy, hence never empty (lemma
  \<open>index_run_title_not_empty\<close>), but ids are not distinct: evaluated here, two creates
  handled in the same millisecond, from the empty registry, leave two tasks with one id.
\<close>

theorem same_millisecond_ids_not_distinct:
  "\<not> distinct (map id' (index_run
       [(1700000000000, POST_tasks buy_milk), (1700000000000, POST_tasks buy_eggs)] []))"
  by (simp add: index_post_tasks_def buy_milk_def buy_eggs_def ascii_def Let_def)

text \<open>
  C3. For every registry and id, delete removes at most one task and always answers 200
  with the success message. The answer is always that one (lemma
  \<open>index_delete_tasks_id_eq\<close>) and at most one task goes when the ids are distinct
  (lemma \<open>index_delete_tasks_id_distinct\<close>). Evaluated here: in the registry that two
  creates of one millisecond leave, one delete removes both tasks.
\<close>

theorem delete_removes_two_tasks:
  "length (index_run
     [(1700000000000, POST_tasks buy_milk), (1700000000000, POST_tasks buy_eggs)] []) = 2 \<and>
   index_delete_tasks_id (ascii ''1700000000000'') (index_run
     [(1700000000000, POST_tasks buy_milk), (1700000000000, POST_tasks buy_eggs)] []) =
     (Sent \<lparr>status = 200, body = MessageObject (ascii ''Task deleted successfully'')\<rparr>, [])"
proof -
  have run: "index_run
     [(1700000000000, POST_tasks buy_milk), (1700000000000, POST_tasks buy_eggs)] [] =
      [\<lparr>id' = 1700000000000, title = JString (ascii ''Buy milk''), completed = False\<rparr>,
       \<lparr>id' = 1700000000000, title = JString (ascii ''Buy eggs''), completed = False\<rparr>]"
    by (simp add: index_post_tasks_def buy_milk_def buy_eggs_def ascii_def Let_def)
  show ?thesis
    unfolding run
    by (simp add: index_delete_tasks_id_eq Number_1700000000000 has_id_iff)
qed

text \<open>
  C4. For every task in the registry, if the path segment denotes its id, toggling twice
  in succession answers 200 both times, the second answer carries the opposite
  \<open>completed\<close> value of the first, and the registry after the second toggle is the
  registry before the first.
\<close>

theorem toggle_twice_restores:
  assumes "t \<in> set tasks" and "Number params_id = Fin (of_int (id' t))"
  shows "\<exists>r1 r2 tasks1.
           index_put_tasks_id params_id tasks = (Sent \<lparr>status = 200, body = TaskObject r1\<rparr>, tasks1) \<and>
           index_put_tasks_id params_id tasks1 = (Sent \<lparr>status = 200, body = TaskObject r2\<rparr>, tasks) \<and>
           completed r2 = (\<not> completed r1)"
proof -
  from assms obtain i where i: "findIndex (has_id (Number params_id)) tasks = Some i"
    by (rule present_findIndex)
  define tasks1 where "tasks1 = tasks[i := toggled (tasks ! i)]"
  from findIndex_Some [OF i] have lt: "i < length tasks" and m: "has_id (Number params_id) (tasks ! i)"
    by simp_all
  have i1: "findIndex (has_id (Number params_id)) tasks1 = Some i"
    unfolding tasks1_def using findIndex_update [OF i, of "toggled (tasks ! i)"] m by simp
  have restored: "tasks1[i := toggled (tasks1 ! i)] = tasks"
    unfolding tasks1_def using lt by simp
  have "tasks1 ! i = toggled (tasks ! i)"
    unfolding tasks1_def using lt by simp
  then show ?thesis
    using index_put_tasks_id_found [OF i] index_put_tasks_id_found [OF i1] restored
    by (simp add: tasks1_def)
qed

theorem toggle_twice_restores_witness:
  "\<exists>r1 r2 tasks1.
     index_put_tasks_id (ascii ''5'') [\<lparr>id' = 5, title = JString (ascii ''a''), completed = False\<rparr>]
       = (Sent \<lparr>status = 200, body = TaskObject r1\<rparr>, tasks1) \<and>
     index_put_tasks_id (ascii ''5'') tasks1
       = (Sent \<lparr>status = 200, body = TaskObject r2\<rparr>,
          [\<lparr>id' = 5, title = JString (ascii ''a''), completed = False\<rparr>]) \<and>
     completed r2 = (\<not> completed r1)"
proof -
  have n: "Number (ascii ''5'') = Fin (of_int 5)"
    by (simp add: Number_5)
  show ?thesis
    using toggle_twice_restores [of "\<lparr>id' = 5, title = JString (ascii ''a''), completed = False\<rparr>"
        "[\<lparr>id' = 5, title = JString (ascii ''a''), completed = False\<rparr>]" "ascii ''5''"] n
    by simp
qed

text \<open>
  C5. For every request where the title is missing or empty, create answers 400 with
  the error \<open>Title is required\<close> and leaves the registry as it was. That holds when
  the request has a body (lemma \<open>index_post_tasks_no_title\<close>). Evaluated here: a
  request without a body, where \<open>req.body\<close> is \<open>undefined\<close>: the destructuring
  throws a TypeError before the check of the title, so no 400 is sent; the registry is
  unchanged.
\<close>

theorem create_without_body_throws:
  "index_post_tasks now JUndefined tasks = (Threw TypeError, tasks)"
  by (simp add: index_post_tasks_def)

text \<open>
  C6. For every path segment whose number is the id of no task in the registry, toggle
  answers 404 with the error \<open>Task not found\<close>, and the registry is the same after as
  before.
\<close>

theorem toggle_unknown_id_not_found:
  assumes "\<forall>t \<in> set tasks. Number params_id \<noteq> Fin (of_int (id' t))"
  shows "index_put_tasks_id params_id tasks =
           (Sent \<lparr>status = 404, body = ErrorObject (ascii ''Task not found'')\<rparr>, tasks)"
proof -
  from assms have "findIndex (has_id (Number params_id)) tasks = None"
    by (simp add: findIndex_None_iff has_id_iff)
  then show ?thesis by (rule index_put_tasks_id_missing)
qed

theorem toggle_unknown_id_not_found_witness:
  "index_put_tasks_id (ascii ''6'') [\<lparr>id' = 5, title = JString (ascii ''a''), completed = False\<rparr>] =
     (Sent \<lparr>status = 404, body = ErrorObject (ascii ''Task not found'')\<rparr>,
      [\<lparr>id' = 5, title = JString (ascii ''a''), completed = False\<rparr>])"
proof -
  have n: "Number (ascii ''6'') = Fin 6"
    by (rule Number_6)
  show ?thesis
    using toggle_unknown_id_not_found [of "[\<lparr>id' = 5, title = JString (ascii ''a''), completed = False\<rparr>]" "ascii ''6''"] n
    by simp
qed

text \<open>
  C7. Starting from the empty registry, after any run of requests without a delete, the
  list route answers 200 with exactly as many tasks as the run had successful creates
  (201 responses), and they are, by id and title, the created tasks in the order of their
  creation.
\<close>

theorem list_after_creates:
  assumes "\<forall>r \<in> set reqs. \<not> is_delete (snd r)"
  shows "\<exists>ts. index_get_tasks (index_run reqs []) =
                (Sent \<lparr>status = 200, body = TaskArray ts\<rparr>, index_run reqs []) \<and>
              length ts = length (created_tasks (index_responses reqs [])) \<and>
              map id' ts = map id' (created_tasks (index_responses reqs [])) \<and>
              map title ts = map title (created_tasks (index_responses reqs []))"
proof -
  from index_run_keys_no_delete [OF assms, of "[]"]
  have keys: "map id' (index_run reqs []) = map id' (created_tasks (index_responses reqs []))"
    "map title (index_run reqs []) = map title (created_tasks (index_responses reqs []))"
    by simp_all
  from keys(1) have "length (index_run reqs []) = length (created_tasks (index_responses reqs []))"
    by (rule map_eq_imp_length_eq)
  with keys show ?thesis
    by (simp add: index_get_tasks_def)
qed

theorem list_after_creates_witness:
  "\<exists>ts. index_get_tasks (index_run [(3, POST_tasks buy_milk), (4, POST_tasks (JObject [])), (5, POST_tasks buy_eggs)] []) =
                (Sent \<lparr>status = 200, body = TaskArray ts\<rparr>, index_run [(3, POST_tasks buy_milk), (4, POST_tasks (JObject [])), (5, POST_tasks buy_eggs)] []) \<and>
              length ts = 2 \<and> map id' ts = [3, 5] \<and>
              map title ts = [JString (ascii ''Buy milk''), JString (ascii ''Buy eggs'')]"
proof -
  have r: "created_tasks (index_responses [(3, POST_tasks buy_milk), (4, POST_tasks (JObject [])), (5, POST_tasks buy_eggs)] []) =
    [\<lparr>id' = 3, title = JString (ascii ''Buy milk''), completed = False\<rparr>,
     \<lparr>id' = 5, title = JString (ascii ''Buy eggs''), completed = False\<rparr>]"
    by (simp add: index_post_tasks_def buy_milk_def buy_eggs_def Let_def ascii_def)
  show ?thesis
    using list_after_creates [of "[(3, POST_tasks buy_milk), (4, POST_tasks (JObject [])), (5, POST_tasks buy_eggs)]"]
    unfolding r by (simp add: numeral_2_eq_2)
qed

text \<open>
  C8, as stated: the \<open>:id\<close> path segment is parsed as an integer, and a segment
  that is not numeric matches no task. The handlers convert the segment with
  \<open>Number\<close>: the segment \<open>1.5\<close> gives the id \<open>1.5\<close>, which is not an integer;
  and a segment that is one space gives \<open>0\<close>, so that on a registry holding a task
  with id 0 PUT toggles that task and DELETE removes it.
\<close>

theorem path_id_fraction_and_blank:
  "Number (ascii ''1.5'') = Fin (3 / 2) \<and> \<not> is_integer (Number (ascii ''1.5'')) \<and>
   list_all is_StrWhiteSpaceChar [0x20] \<and>
   index_put_tasks_id [0x20] [\<lparr>id' = 0, title = JString (ascii ''a''), completed = False\<rparr>] =
     (Sent \<lparr>status = 200,
            body = TaskObject \<lparr>id' = 0, title = JString (ascii ''a''), completed = True\<rparr>\<rparr>,
      [\<lparr>id' = 0, title = JString (ascii ''a''), completed = True\<rparr>]) \<and>
   index_delete_tasks_id [0x20] [\<lparr>id' = 0, title = JString (ascii ''a''), completed = False\<rparr>] =
     (Sent \<lparr>status = 200, body = MessageObject (ascii ''Task deleted successfully'')\<rparr>, [])"
proof -
  have n: "Number (ascii ''1.5'') = Fin (3 / 2)"
    by code_simp
  have "\<lfloor>3 / 2 :: rat\<rfloor> = 1"
    by (simp add: floor_eq_iff)
  with n have frac: "\<not> is_integer (Number (ascii ''1.5''))"
    by simp
  have ws: "list_all is_StrWhiteSpaceChar [0x20]"
    by (simp add: is_StrWhiteSpaceChar_def)
  from Number_blank [OF ws] have z: "Number [0x20] = Fin 0" .
  have put: "index_put_tasks_id [0x20] [\<lparr>id' = 0, title = JString (ascii ''a''), completed = False\<rparr>] =
     (Sent \<lparr>status = 200,
            body = TaskObject \<lparr>id' = 0, title = JString (ascii ''a''), completed = True\<rparr>\<rparr>,
      [\<lparr>id' = 0, title = JString (ascii ''a''), completed = True\<rparr>])"
    by (simp add: index_put_tasks_id_def z strict_equals_def Let_def)
  have del: "index_delete_tasks_id [0x20] [\<lparr>id' = 0, title = JString (ascii ''a''), completed = False\<rparr>] =
     (Sent \<lparr>status = 200, body = MessageObject (ascii ''Task deleted successfully'')\<rparr>, [])"
    by (simp add: index_delete_tasks_id_def z strict_equals_def Let_def)
  from n frac ws put del show ?thesis
    by (intro conjI)
qed

text \<open>
  C8, amended: the \<open>:id\<close> path segment is converted with \<open>Number\<close>. A
  non-empty segment of decimal digits whose value is below \<open>2^53\<close> gives that
  integer; a segment of white space only gives \<open>0\<close>; a segment that is not a numeric
  string of the language gives \<open>NaN\<close>. For every segment that is not such a numeric
  string, or whose number is not an integer (\<open>NaN\<close>, an infinity, a fraction), the id
  matches no task in any registry: PUT answers 404, and DELETE answers 200 and leaves the
  registry unchanged.
\<close>

theorem path_id_conversion:
  "(ds \<noteq> [] \<and> list_all (is_digit 10) ds \<and> MV 10 ds < 2 ^ 53 \<longrightarrow>
      Number ds = Fin (of_int (MV 10 ds))) \<and>
   (list_all is_StrWhiteSpaceChar ws \<longrightarrow> Number ws = Fin 0) \<and>
   (\<not> is_StringNumericLiteral params_id \<longrightarrow> Number params_id = NaN) \<and>
   (\<not> is_StringNumericLiteral params_id \<or> \<not> is_integer (Number params_id) \<longrightarrow>
      index_put_tasks_id params_id tasks =
        (Sent \<lparr>status = 404, body = ErrorObject (ascii ''Task not found'')\<rparr>, tasks) \<and>
      index_delete_tasks_id params_id tasks =
        (Sent \<lparr>status = 200, body = MessageObject (ascii ''Task deleted successfully'')\<rparr>,
         tasks))"
proof (intro conjI impI)
  assume "ds \<noteq> [] \<and> list_all (is_digit 10) ds \<and> MV 10 ds < 2 ^ 53"
  then show "Number ds = Fin (of_int (MV 10 ds))"
    by (simp add: Number_digits)
next
  assume "list_all is_StrWhiteSpaceChar ws"
  then show "Number ws = Fin 0"
    by (rule Number_blank)
next
  assume "\<not> is_StringNumericLiteral params_id"
  then show "Number params_id = NaN"
    by (simp add: Number_NaN_iff)
next
  assume "\<not> is_StringNumericLiteral params_id \<or> \<not> is_integer (Number params_id)"
  then have ni: "\<not> is_integer (Number params_id)"
    by (auto simp: Number_NaN_iff [symmetric])
  show "index_put_tasks_id params_id tasks =
        (Sent \<lparr>status = 404, body = ErrorObject (ascii ''Task not found'')\<rparr>, tasks)"
    by (rule index_put_tasks_id_not_integer [OF ni])
  show "index_delete_tasks_id params_id tasks =
        (Sent \<lparr>status = 200, body = MessageObject (ascii ''Task deleted successfully'')\<rparr>,
         tasks)"
    by (rule index_delete_tasks_id_not_integer [OF ni])
qed

theorem path_id_conversion_witness:
  "Number (ascii ''12'') = Fin 12 \<and>
   Number [0x20] = Fin 0 \<and>
   \<not> is_StringNumericLiteral (ascii ''12abc'') \<and>
   Number (ascii ''12abc'') = NaN \<and>
   index_put_tasks_id (ascii ''12abc'') [\<lparr>id' = 12, title = JString (ascii ''a''), completed = False\<rparr>] =
     (Sent \<lparr>status = 404, body = ErrorObject (ascii ''Task not found'')\<rparr>,
      [\<lparr>id' = 12, title = JString (ascii ''a''), completed = False\<rparr>]) \<and>
   index_delete_tasks_id (ascii ''12abc'') [\<lparr>id' = 12, title = JString (ascii ''a''), completed = False\<rparr>] =
     (Sent \<lparr>status = 200, body = MessageObject (ascii ''Task deleted successfully'')\<rparr>,
      [\<lparr>id' = 12, title = JString (ascii ''a''), completed = False\<rparr>]) \<and>
   is_StringNumericLiteral (ascii ''Infinity'') \<and>
   \<not> is_integer (Number (ascii ''Infinity'')) \<and>
   index_put_tasks_id (ascii ''Infinity'') [\<lparr>id' = 12, title = JString (ascii ''a''), completed = False\<rparr>] =
     (Sent \<lparr>status = 404, body = ErrorObject (ascii ''Task not found'')\<rparr>,
      [\<lparr>id' = 12, title = JString (ascii ''a''), completed = False\<rparr>]) \<and>
   index_delete_tasks_id (ascii ''Infinity'') [\<lparr>id' = 12, title = JString (ascii ''a''), completed = False\<rparr>] =
     (Sent \<lparr>status = 200, body = MessageObject (ascii ''Task deleted successfully'')\<rparr>,
      [\<lparr>id' = 12, title = JString (ascii ''a''), completed = False\<rparr>])"
proof -
  have d: "ascii ''12'' \<noteq> []" "list_all (is_digit 10) (ascii ''12'')" "MV 10 (ascii ''12'') = 12"
    by (simp_all add: ascii_def is_digit_def digit_value_def MV_def)
  have ws: "list_all is_StrWhiteSpaceChar [0x20]"
    by (simp add: is_StrWhiteSpaceChar_def)
  have "Number (ascii ''12abc'') = NaN"
    by code_simp
  then have nl: "\<not> is_StringNumericLiteral (ascii ''12abc'')"
    by (simp add: Number_NaN_iff)
  have inf: "Number (ascii ''Infinity'') = PosInfinity"
    by code_simp
  then have lit: "is_StringNumericLiteral (ascii ''Infinity'')"
    using Number_NaN_iff [of "ascii ''Infinity''"] by simp
  from inf have ni: "\<not> is_integer (Number (ascii ''Infinity''))"
    by simp
  show ?thesis
    using path_id_conversion [of "ascii ''12''" "[0x20]" "ascii ''12abc''"
        "[\<lparr>id' = 12, title = JString (ascii ''a''), completed = False\<rparr>]"]
      path_id_conversion [of "ascii ''12''" "[0x20]" "ascii ''Infinity''"
        "[\<lparr>id' = 12, title = JString (ascii ''a''), completed = False\<rparr>]"]
      d ws nl lit ni
    by simp
qed

text \<open>
  C9, as stated: the two files differ only in the listening port. Their start-up
  callbacks differ as well, whatever the port: \<open>src/index.js\<close> logs one line,
  \<open>src/unnamed/part_000\<close> logs two.
\<close>

theorem listen_callbacks_differ:
  "length index_listen_callback = 1 \<and> length part_000_listen_callback = 2 \<and>
   index_listen_callback \<noteq> part_000_listen_callback"
  by (simp add: index_listen_callback_def part_000_listen_callback_def)

text \<open>
  C9, amended: for every request, clock reading and registry, the handlers of
  \<open>src/unnamed/part_000\<close> and of \<open>src/index.js\<close> give the same response and the
  same registry; the files differ in the listening port and in the start-up log:
  \<open>src/index.js\<close> logs one line for port 5000 that starts with a rocket,
  \<open>src/unnamed/part_000\<close> logs the line for port 3000 twice, without the rocket.
\<close>

theorem handlers_agree:
  "part_000_app now req tasks = index_app now req tasks \<and> part_000_PORT \<noteq> index_PORT \<and>
   index_listen_callback =
     [[0xD83D, 0xDE80] @ ascii '' Server running at http://localhost:5000''] \<and>
   part_000_listen_callback =
     [ascii ''Server running at http://localhost:3000'',
      ascii ''Server running at http://localhost:3000'']"
proof (intro conjI)
  show "part_000_app now req tasks = index_app now req tasks"
  proof (cases req)
    case GET_root
    then show ?thesis by (simp add: part_000_get_root_def index_get_root_def)
  next
    case GET_tasks
    then show ?thesis by (simp add: part_000_get_tasks_def index_get_tasks_def)
  next
    case (POST_tasks req_body)
    then show ?thesis by (simp add: part_000_post_tasks_def index_post_tasks_def)
  next
    case (PUT_tasks_id params_id)
    then show ?thesis by (simp add: part_000_put_tasks_id_def index_put_tasks_id_def)
  next
    case (DELETE_tasks_id params_id)
    then show ?thesis by (simp add: part_000_delete_tasks_id_def index_delete_tasks_id_def)
  qed
  show "part_000_PORT \<noteq> index_PORT"
    by (simp add: part_000_PORT_def index_PORT_def)
  show "index_listen_callback =
     [[0xD83D, 0xDE80] @ ascii '' Server running at http://localhost:5000'']"
    by (simp add: index_listen_callback_def index_PORT_def ToString_5000 ascii_def)
  show "part_000_listen_callback =
     [ascii ''Server running at http://localhost:3000'',
      ascii ''Server running at http://localhost:3000'']"
    by (simp add: part_000_listen_callback_def part_000_PORT_def ToString_3000 ascii_def)
qed

text \<open>
  C10. For every task in the registry, if the path segment denotes its id, the toggle
  answers 200 and replaces one task, at a position \<open>i\<close> where the id matches, by the
  same task with \<open>completed\<close> negated: its id and title, the number of tasks and every
  task at another position are unchanged.
\<close>

theorem toggle_frame:
  assumes "t \<in> set tasks" and "Number params_id = Fin (of_int (id' t))"
  shows "\<exists>i < length tasks.
           has_id (Number params_id) (tasks ! i) \<and>
           index_put_tasks_id params_id tasks =
             (Sent \<lparr>status = 200, body = TaskObject (toggled (tasks ! i))\<rparr>,
              tasks[i := toggled (tasks ! i)]) \<and>
           length (tasks[i := toggled (tasks ! i)]) = length tasks \<and>
           id' (toggled (tasks ! i)) = id' (tasks ! i) \<and>
           title (toggled (tasks ! i)) = title (tasks ! i) \<and>
           completed (toggled (tasks ! i)) = (\<not> completed (tasks ! i)) \<and>
           (\<forall>j < length tasks. j \<noteq> i \<longrightarrow> tasks[i := toggled (tasks ! i)] ! j = tasks ! j)"
proof -
  from assms obtain i where i: "findIndex (has_id (Number params_id)) tasks = Some i"
    by (rule present_findIndex)
  from findIndex_Some [OF i] have "i < length tasks" "has_id (Number params_id) (tasks ! i)"
    by simp_all
  with index_put_tasks_id_found [OF i] show ?thesis
    by (intro exI [of _ i]) simp
qed

theorem toggle_frame_witness:
  "\<lparr>id' = 6, title = JString (ascii ''b''), completed = False\<rparr> \<in>
     set [\<lparr>id' = 5, title = JString (ascii ''a''), completed = False\<rparr>,
          \<lparr>id' = 6, title = JString (ascii ''b''), completed = False\<rparr>] \<and>
   Number (ascii ''6'') = Fin 6 \<and>
   index_put_tasks_id (ascii ''6'')
       [\<lparr>id' = 5, title = JString (ascii ''a''), completed = False\<rparr>,
        \<lparr>id' = 6, title = JString (ascii ''b''), completed = False\<rparr>] =
       (Sent \<lparr>status = 200,
              body = TaskObject \<lparr>id' = 6, title = JString (ascii ''b''), completed = True\<rparr>\<rparr>,
        [\<lparr>id' = 5, title = JString (ascii ''a''), completed = False\<rparr>,
         \<lparr>id' = 6, title = JString (ascii ''b''), completed = True\<rparr>])"
proof -
  let ?a = "\<lparr>id' = 5, title = JString (ascii ''a''), completed = False\<rparr>"
  let ?b = "\<lparr>id' = 6, title = JString (ascii ''b''), completed = False\<rparr>"
  have n: "Number (ascii ''6'') = Fin 6"
    by (rule Number_6)
  have h1: "?b \<in> set [?a, ?b]" by simp
  have h2: "Number (ascii ''6'') = Fin (of_int (id' ?b))" using n by simp
  from toggle_frame [OF h1 h2] obtain i where i: "i < length [?a, ?b]"
    "has_id (Number (ascii ''6'')) ([?a, ?b] ! i)"
    "index_put_tasks_id (ascii ''6'') [?a, ?b] =
      (Sent \<lparr>status = 200, body = TaskObject (toggled ([?a, ?b] ! i))\<rparr>,
       [?a, ?b][i := toggled ([?a, ?b] ! i)])"
    by blast
  from i(1) have "i = 0 \<or> i = 1" by auto
  with i(2) n have i1: "i = 1" by (auto simp: has_id_iff)
  from i(3) have "index_put_tasks_id (ascii ''6'') [?a, ?b] =
      (Sent \<lparr>status = 200, body = TaskObject (toggled ?b)\<rparr>, [?a, toggled ?b])"
    unfolding i1 by simp
  with h1 n show ?thesis
    by (simp add: toggled_def)
qed

end
